theory Spec2Isabelle
  imports Complex_Main
begin

section \<open>JavaScript strings and regular expressions\<close>

text \<open>
  A JavaScript string is modelled as a HOL \<open>string\<close>: one \<open>char\<close> per UTF-16 code unit,
  restricted to the code units below 256. All literals of \<^verbatim>\<open>lib/transform.js\<close> are ASCII.
\<close>

definition is_digit :: "char \<Rightarrow> bool" where
  \<comment> \<open>the class \<^verbatim>\<open>\d\<close>\<close>
  "is_digit c = (c \<in> set ''0123456789'')"

definition is_line_terminator :: "char \<Rightarrow> bool" where
  \<comment> \<open>LF and CR, the line terminators below 256, which \<^verbatim>\<open>.\<close> does not match\<close>
  "is_line_terminator c = (c = CHR 0x0A \<or> c = CHR 0x0D)"

definition is_space :: "char \<Rightarrow> bool" where
  \<comment> \<open>the class \<^verbatim>\<open>\s\<close> below 256: TAB, LF, VT, FF, CR, SP and NBSP\<close>
  "is_space c = (c \<in> set [CHR 0x09, CHR 0x0A, CHR 0x0B, CHR 0x0C, CHR 0x0D, CHR 0x20, CHR 0xA0])"

text \<open>
  The regular expressions that the source writes as strings and hands to \<^verbatim>\<open>new RegExp\<close>.
  They use literal characters, \<^verbatim>\<open>\d\<close>, \<^verbatim>\<open>.\<close>, concatenation, \<^verbatim>\<open>|\<close>, \<^verbatim>\<open>?\<close> and \<^verbatim>\<open>+\<close> only,
  so a backtracking search for an anchored match succeeds exactly when the whole string
  belongs to the regular language; the matcher below decides that by derivatives.
\<close>

datatype atom = Lit char | Digit | AnyChar

datatype rexp = Fail | Empty | Sym atom | Cat rexp rexp | Or rexp rexp | Rep rexp

fun atom_ok :: "atom \<Rightarrow> char \<Rightarrow> bool" where
  "atom_ok (Lit d) c = (c = d)"
| "atom_ok Digit c = is_digit c"
| "atom_ok AnyChar c = (\<not> is_line_terminator c)"

definition Maybe :: "rexp \<Rightarrow> rexp" where
  \<comment> \<open>\<^verbatim>\<open>r?\<close>\<close>
  "Maybe r = Or r Empty"

definition Many1 :: "rexp \<Rightarrow> rexp" where
  \<comment> \<open>\<^verbatim>\<open>r+\<close>\<close>
  "Many1 r = Cat r (Rep r)"

fun word :: "string \<Rightarrow> rexp" where
  \<comment> \<open>a run of literal characters\<close>
  "word [] = Empty"
| "word (c # cs) = Cat (Sym (Lit c)) (word cs)"

fun cats :: "rexp list \<Rightarrow> rexp" where
  "cats [] = Empty"
| "cats [r] = r"
| "cats (r # rs) = Cat r (cats rs)"

fun nullable :: "rexp \<Rightarrow> bool" where
  "nullable Fail = False"
| "nullable Empty = True"
| "nullable (Sym a) = False"
| "nullable (Cat r s) = (nullable r \<and> nullable s)"
| "nullable (Or r s) = (nullable r \<or> nullable s)"
| "nullable (Rep r) = True"

fun deriv :: "char \<Rightarrow> rexp \<Rightarrow> rexp" where
  "deriv c Fail = Fail"
| "deriv c Empty = Fail"
| "deriv c (Sym a) = (if atom_ok a c then Empty else Fail)"
| "deriv c (Cat r s) =
     (if nullable r then Or (Cat (deriv c r) s) (deriv c s) else Cat (deriv c r) s)"
| "deriv c (Or r s) = Or (deriv c r) (deriv c s)"
| "deriv c (Rep r) = Cat (deriv c r) (Rep r)"

fun full_match :: "rexp \<Rightarrow> string \<Rightarrow> bool" where
  \<comment> \<open>\<^verbatim>\<open>new RegExp('^(' + r + ')$').test(v)\<close>\<close>
  "full_match r [] = nullable r"
| "full_match r (c # cs) = full_match (deriv c r) cs"

text \<open>The language of a regular expression, for reasoning about \<open>full_match\<close>.\<close>

inductive in_lang :: "rexp \<Rightarrow> string \<Rightarrow> bool" where
  in_Empty: "in_lang Empty []"
| in_Sym: "atom_ok a c \<Longrightarrow> in_lang (Sym a) [c]"
| in_Cat: "in_lang r x \<Longrightarrow> in_lang s y \<Longrightarrow> in_lang (Cat r s) (x @ y)"
| in_OrL: "in_lang r x \<Longrightarrow> in_lang (Or r s) x"
| in_OrR: "in_lang s x \<Longrightarrow> in_lang (Or r s) x"
| in_Rep0: "in_lang (Rep r) []"
| in_RepS: "in_lang r x \<Longrightarrow> in_lang (Rep r) y \<Longrightarrow> in_lang (Rep r) (x @ y)"

section \<open>Validators\<close>

definition IR :: rexp where
  \<comment> \<open>Integer RegEx: \<^verbatim>\<open>'\\d+'\<close>\<close>
  "IR = Many1 (Sym Digit)"

definition FR :: rexp where
  \<comment> \<open>Float RegEx: the literal \<^verbatim>\<open>'\\d+(?:\.\\d+)?'\<close>. Inside the string literal \<^verbatim>\<open>\.\<close> is a
      useless escape, so the string is \<^verbatim>\<open>\d+(?:.\d+)?\<close> and its \<^verbatim>\<open>.\<close> is the wildcard.\<close>
  "FR = Cat IR (Maybe (Cat (Sym AnyChar) IR))"

definition comma :: rexp where
  "comma = Sym (Lit CHR '','')"

definition Validators :: "string \<Rightarrow> (rexp list + rexp) option" where
  \<comment> \<open>\<open>Inl\<close> is an array of alternatives, \<open>Inr\<close> a single pattern\<close>
  "Validators type =
     (if type = ''quality'' then
        Some (Inl [word ''color'', word ''gray'', word ''bitonal'', word ''default''])
      else if type = ''format'' then
        Some (Inl [word ''jpg'', word ''tif'', word ''gif'', word ''png'', word ''webp''])
      else if type = ''region'' then
        Some (Inl [word ''full'', word ''square'',
                   cats [word ''pct:'', FR, comma, FR, comma, FR, comma, FR],
                   cats [IR, comma, IR, comma, IR, comma, IR]])
      else if type = ''size'' then
        Some (Inl [word ''full'', word ''max'', cats [word ''pct:'', FR], cats [IR, comma],
                   cats [comma, IR], cats [Maybe (Sym (Lit CHR ''!'')), IR, comma, IR]])
      else if type = ''rotation'' then
        Some (Inr (cats [Maybe (Sym (Lit CHR ''!'')), FR]))
      else None)"

fun join_alt :: "rexp list \<Rightarrow> rexp" where
  \<comment> \<open>\<^verbatim>\<open>result.join('|')\<close>\<close>
  "join_alt [] = Empty"
| "join_alt [r] = r"
| "join_alt (r # rs) = Or r (join_alt rs)"

definition validator :: "string \<Rightarrow> rexp" where
  \<comment> \<open>a type without an entry gives the pattern \<^verbatim>\<open>^(undefined)$\<close>\<close>
  "validator type =
     (case Validators type of
        None \<Rightarrow> word ''undefined''
      | Some (Inl alts) \<Rightarrow> join_alt alts
      | Some (Inr r) \<Rightarrow> r)"

text \<open>
  Modelled from the spec: \<^verbatim>\<open>lib/error.js\<close> is not among the sources. The spec gives a
  single kind of error, which carries a human-readable message.
\<close>

datatype IIIFError = IIIFError string

definition validate :: "string \<Rightarrow> string \<Rightarrow> IIIFError + bool" where
  "validate type v =
     (if \<not> full_match (validator type) v
      then Inl (IIIFError (''Invalid '' @ type @ '': '' @ v))
      else Inr True)"

section \<open>JavaScript values\<close>

text \<open>
  The values the interpreter computes with. A finite number is a rational. The arithmetic
  of the percentage forms, a quotient by 100 and a product with a dimension, is rounded to
  binary64 as the source computes it (\<open>binary64\<close> below). The difference and the halving of
  the square region are left exact: binary64 computes them exactly on integers of
  magnitude below \<open>2^53\<close>. The infinities and the negative zero are not modelled.
\<close>

datatype jsval = Undefined | Null | NaN | Num rat

fun ToNumber :: "jsval \<Rightarrow> jsval" where
  "ToNumber Undefined = NaN"
| "ToNumber Null = Num 0"
| "ToNumber v = v"

definition arith :: "(rat \<Rightarrow> rat \<Rightarrow> rat) \<Rightarrow> jsval \<Rightarrow> jsval \<Rightarrow> jsval" where
  "arith f a b = (case (ToNumber a, ToNumber b) of (Num x, Num y) \<Rightarrow> Num (f x y) | _ \<Rightarrow> NaN)"

function bit_length :: "int \<Rightarrow> nat" where
  \<comment> \<open>the number of binary digits of a positive integer\<close>
  "bit_length k = (if k \<le> 0 then 0 else Suc (bit_length (k div 2)))"
  by pat_completeness auto
termination
  by (relation "measure nat") auto

definition pow2 :: "int \<Rightarrow> rat" where
  "pow2 e = (if 0 \<le> e then 2 ^ nat e else 1 / 2 ^ nat (- e))"

definition round_half_even :: "rat \<Rightarrow> int" where
  "round_half_even m =
     (let n = \<lfloor>m\<rfloor>; f = m - of_int n
      in if f < 1 / 2 then n else if 1 / 2 < f then n + 1 else if even n then n else n + 1)"

definition binary64 :: "rat \<Rightarrow> rat" where
  \<comment> \<open>the binary64 number nearest to \<open>x\<close>, a tie going to the even significand. With
      \<open>2^e \<le> |x| < 2^(e + 1)\<close> the numbers around \<open>x\<close> are the multiples of \<open>2^(e - 52)\<close>, and of
      \<open>2^(- 1074)\<close> below the normal range; \<open>e\<close> is found from the bit lengths of numerator
      and denominator. A result beyond the largest binary64 number, an infinity in the
      source, stays finite here.\<close>
  "binary64 x =
     (if x = 0 then 0
      else let a = \<bar>x\<bar>;
               e0 = int (bit_length (fst (quotient_of a)))
                    - int (bit_length (snd (quotient_of a)));
               e = (if pow2 e0 \<le> a then e0 else e0 - 1);
               u = pow2 (max e (- 1022) - 52)
           in sgn x * of_int (round_half_even (a / u)) * u)"

definition rounded :: "jsval \<Rightarrow> jsval" where
  "rounded v = (case v of Num x \<Rightarrow> Num (binary64 x) | _ \<Rightarrow> v)"

definition js_mul64 :: "jsval \<Rightarrow> jsval \<Rightarrow> jsval" where
  \<comment> \<open>\<^verbatim>\<open>a * b\<close> on binary64 operands, rounded\<close>
  "js_mul64 a b = rounded (arith (*) (rounded a) (rounded b))"

definition js_sub :: "jsval \<Rightarrow> jsval \<Rightarrow> jsval" where
  "js_sub = arith (-)"

definition js_div :: "jsval \<Rightarrow> jsval \<Rightarrow> jsval" where
  \<comment> \<open>the exact quotient, for the halving in \<^verbatim>\<open>_regionSquare\<close>. A zero divisor, which would
      give an infinity, yields \<open>NaN\<close> here; the source divides by the constants 100.0 and
      2 only.\<close>
  "js_div a b = (if ToNumber b = Num 0 then NaN else arith (/) a b)"

definition js_div64 :: "jsval \<Rightarrow> jsval \<Rightarrow> jsval" where
  \<comment> \<open>\<^verbatim>\<open>a / b\<close> on binary64 operands, rounded\<close>
  "js_div64 a b = rounded (js_div (rounded a) (rounded b))"

definition js_gt :: "jsval \<Rightarrow> jsval \<Rightarrow> bool" where
  \<comment> \<open>\<^verbatim>\<open>a > b\<close>: false when either side is \<open>NaN\<close>\<close>
  "js_gt a b = (case (ToNumber a, ToNumber b) of (Num x, Num y) \<Rightarrow> x > y | _ \<Rightarrow> False)"

definition js_le :: "jsval \<Rightarrow> jsval \<Rightarrow> bool" where
  \<comment> \<open>\<^verbatim>\<open>a <= b\<close>\<close>
  "js_le a b = (case (ToNumber a, ToNumber b) of (Num x, Num y) \<Rightarrow> x \<le> y | _ \<Rightarrow> False)"

definition strict_eq :: "jsval \<Rightarrow> jsval \<Rightarrow> bool" where
  \<comment> \<open>\<^verbatim>\<open>a === b\<close>: \<open>NaN\<close> is not equal to itself\<close>
  "strict_eq a b = (a = b \<and> a \<noteq> NaN)"

definition isNaN :: "jsval \<Rightarrow> bool" where
  "isNaN v = (ToNumber v = NaN)"

definition Math_round :: "jsval \<Rightarrow> jsval" where
  \<comment> \<open>to the nearest integer, a tie going up\<close>
  "Math_round v = (case ToNumber v of Num x \<Rightarrow> Num (of_int \<lfloor>x + 1 / 2\<rfloor>) | _ \<Rightarrow> NaN)"

definition Math_floor :: "jsval \<Rightarrow> jsval" where
  "Math_floor v = (case ToNumber v of Num x \<Rightarrow> Num (of_int \<lfloor>x\<rfloor>) | _ \<Rightarrow> NaN)"

definition Math_abs :: "jsval \<Rightarrow> jsval" where
  "Math_abs v = (case ToNumber v of Num x \<Rightarrow> Num \<bar>x\<bar> | _ \<Rightarrow> NaN)"

definition Math_min :: "jsval \<Rightarrow> jsval \<Rightarrow> jsval" where
  "Math_min = arith min"

definition at_index :: "jsval list \<Rightarrow> nat \<Rightarrow> jsval" where
  \<comment> \<open>\<^verbatim>\<open>a[i]\<close> and array destructuring: a missing element is \<^verbatim>\<open>undefined\<close>\<close>
  "at_index a i = (if i < length a then a ! i else Undefined)"

subsection \<open>Strings to numbers and back\<close>

definition digit_val :: "char \<Rightarrow> nat" where
  \<comment> \<open>the value of a digit, decimal or hexadecimal\<close>
  "digit_val c =
     (if is_digit c then of_char c - 48
      else if c \<in> set ''abcdef'' then of_char c - 87
      else of_char c - 55)"

definition radix_val :: "nat \<Rightarrow> string \<Rightarrow> nat" where
  "radix_val b ds = foldl (\<lambda>n c. b * n + digit_val c) 0 ds"

definition all_in :: "string \<Rightarrow> string \<Rightarrow> bool" where
  \<comment> \<open>a non-empty run of characters of the given alphabet\<close>
  "all_in alphabet ds = (ds \<noteq> [] \<and> list_all (\<lambda>c. c \<in> set alphabet) ds)"

definition digits :: "string \<Rightarrow> bool" where
  \<comment> \<open>the strings of \<^verbatim>\<open>\d+\<close>\<close>
  "digits ds = (ds \<noteq> [] \<and> list_all is_digit ds)"

definition dec :: "string \<Rightarrow> rat" where
  \<comment> \<open>the number that a string of decimal digits denotes\<close>
  "dec ds = of_nat (radix_val 10 ds)"

definition trim :: "string \<Rightarrow> string" where
  "trim s = rev (dropWhile is_space (rev (dropWhile is_space s)))"

definition non_decimal :: "string \<Rightarrow> nat option" where
  \<comment> \<open>\<^verbatim>\<open>0x\<close>, \<^verbatim>\<open>0o\<close> and \<^verbatim>\<open>0b\<close> literals, which take no sign\<close>
  "non_decimal s =
     (case s of
        z # k # ds \<Rightarrow>
          if z \<noteq> CHR ''0'' then None
          else if k \<in> set ''xX'' \<and> all_in ''0123456789abcdefABCDEF'' ds then Some (radix_val 16 ds)
          else if k \<in> set ''oO'' \<and> all_in ''01234567'' ds then Some (radix_val 8 ds)
          else if k \<in> set ''bB'' \<and> all_in ''01'' ds then Some (radix_val 2 ds)
          else None
      | _ \<Rightarrow> None)"

definition exponent_part :: "string \<Rightarrow> int option" where
  \<comment> \<open>nothing, or \<^verbatim>\<open>e\<close> or \<^verbatim>\<open>E\<close>, an optional sign and digits, up to the end of the string\<close>
  "exponent_part s =
     (case s of
        [] \<Rightarrow> Some 0
      | c # t \<Rightarrow>
          if c \<notin> set ''eE'' then None
          else (case t of
                  [] \<Rightarrow> None
                | d # u \<Rightarrow>
                    if d = CHR ''+'' \<and> all_in ''0123456789'' u then Some (int (radix_val 10 u))
                    else if d = CHR ''-'' \<and> all_in ''0123456789'' u then Some (- int (radix_val 10 u))
                    else if all_in ''0123456789'' t then Some (int (radix_val 10 t))
                    else None))"

definition scale10 :: "rat \<Rightarrow> int \<Rightarrow> rat" where
  "scale10 x e = (if 0 \<le> e then x * 10 ^ nat e else x / 10 ^ nat (- e))"

definition unsigned_decimal :: "string \<Rightarrow> rat option" where
  \<comment> \<open>digits, an optional \<^verbatim>\<open>.\<close> with optional digits, an optional exponent; at least one
      digit before the exponent\<close>
  "unsigned_decimal s =
     (let ip = takeWhile is_digit s;
          r = dropWhile is_digit s;
          fp = (case r of c # t \<Rightarrow> if c = CHR ''.'' then takeWhile is_digit t else [] | [] \<Rightarrow> []);
          r' = (case r of c # t \<Rightarrow> if c = CHR ''.'' then dropWhile is_digit t else r | [] \<Rightarrow> [])
      in if ip = [] \<and> fp = [] then None
         else (case exponent_part r' of
                 None \<Rightarrow> None
               | Some e \<Rightarrow>
                   Some (scale10 (of_nat (radix_val 10 ip)
                                  + of_nat (radix_val 10 fp) / 10 ^ length fp) e)))"

definition Number :: "string \<Rightarrow> jsval" where
  \<comment> \<open>\<^verbatim>\<open>Number(s)\<close> for a string: blank is 0, a numeric literal is its value, anything
      else is \<open>NaN\<close>. The literal \<^verbatim>\<open>Infinity\<close> has no value in this model and gives \<open>NaN\<close>;
      the source never converts a string that contains a letter \<^verbatim>\<open>I\<close>.\<close>
  "Number s =
     (let t = trim s in
      if t = [] then Num 0
      else (case non_decimal t of
              Some n \<Rightarrow> Num (of_nat n)
            | None \<Rightarrow>
                (case (if hd t = CHR ''+'' then unsigned_decimal (tl t)
                       else if hd t = CHR ''-'' then map_option uminus (unsigned_decimal (tl t))
                       else unsigned_decimal t) of
                   Some x \<Rightarrow> Num x
                 | None \<Rightarrow> NaN)))"

fun nat_digits :: "nat \<Rightarrow> string" where
  "nat_digits n =
     (if n < 10 then [char_of (48 + n)] else nat_digits (n div 10) @ [char_of (48 + n mod 10)])"

definition toString :: "jsval \<Rightarrow> string" where
  \<comment> \<open>the text of a value in a template literal. A finite number is written here by
      the decimal digits of its integer part: the source writes results of \<open>Math.round\<close>
      only, which are integers, and converts the text back with \<open>Number\<close>.\<close>
  "toString v =
     (case v of
        Undefined \<Rightarrow> ''undefined''
      | Null \<Rightarrow> ''null''
      | NaN \<Rightarrow> ''NaN''
      | Num x \<Rightarrow> (if x < 0 then CHR ''-'' # nat_digits (nat \<bar>\<lfloor>x\<rfloor>\<bar>) else nat_digits (nat \<lfloor>x\<rfloor>)))"

subsection \<open>String methods\<close>

function split_from :: "string \<Rightarrow> string \<Rightarrow> string list" where
  \<comment> \<open>\<^verbatim>\<open>split(/\s*,\s*/)\<close>: \<open>acc\<close> is the reversed piece read so far. A separator starts at
      the current position when the white space there is followed by a comma; it extends
      over the white space after the comma.\<close>
  "split_from acc [] = [rev acc]"
| "split_from acc (c # cs) =
     (case dropWhile is_space (c # cs) of
        [] \<Rightarrow> split_from (c # acc) cs
      | d # rest \<Rightarrow>
          if d = CHR '','' then rev acc # split_from [] (dropWhile is_space rest)
          else split_from (c # acc) cs)"
  by pat_completeness auto

termination
proof (relation "measure (\<lambda>(acc, s). length s)")
  fix acc :: string and c :: char and cs :: string and d :: char and rest :: string
  assume eq: "dropWhile is_space (c # cs) = d # rest"
  have "length (dropWhile is_space rest) \<le> length rest"
    by (rule length_dropWhile_le)
  moreover have "length (d # rest) \<le> length (c # cs)"
    unfolding eq [symmetric] by (rule length_dropWhile_le)
  ultimately show "(([], dropWhile is_space rest), (acc, c # cs)) \<in> measure (\<lambda>(acc, s). length s)"
    by simp
qed simp_all

definition split :: "string \<Rightarrow> string list" where
  "split v = split_from [] v"

definition strip_bang :: "string \<Rightarrow> string" where
  \<comment> \<open>\<^verbatim>\<open>v.replace(/^!/, '')\<close>\<close>
  "strip_bang v = (case v of c # cs \<Rightarrow> if c = CHR ''!'' then cs else v | [] \<Rightarrow> [])"

definition starts_with_bang :: "string \<Rightarrow> bool" where
  \<comment> \<open>\<^verbatim>\<open>v[0] === '!'\<close>\<close>
  "starts_with_bang v = (case v of c # cs \<Rightarrow> c = CHR ''!'' | [] \<Rightarrow> False)"

definition match_pct :: "(char \<Rightarrow> bool) \<Rightarrow> string \<Rightarrow> string option" where
  \<comment> \<open>\<^verbatim>\<open>v.match(/^pct:([C]+)/)\<close> for a character class \<open>C\<close>: the value of \<^verbatim>\<open>RegExp.$1\<close>, the
      longest run of class characters after the prefix, when the match succeeds\<close>
  "match_pct C v =
     (if take 4 v = ''pct:'' \<and> takeWhile C (drop 4 v) \<noteq> []
      then Some (takeWhile C (drop 4 v)) else None)"

section \<open>The pipeline\<close>

text \<open>
  The calls made on the pipeline object, in order, with their arguments: \<open>Extract\<close> has
  the fields left, top, width and height of its argument, \<open>Resize\<close> has width, height and
  fit, \<open>Flop\<close> is the horizontal flip, \<open>ToFormat\<close> sets the output format.
\<close>

datatype directive =
    Extract jsval jsval jsval jsval
  | Resize jsval jsval string
  | Flop
  | Rotate jsval
  | Grayscale
  | Threshold
  | ToFormat string

record Sharp =
  calls :: "directive list"
  widthPre :: jsval
  heightPre :: jsval

text \<open>
  Modelled from the spec: the image pipeline is an external library whose code is not part
  of the repository. The spec gives it as an append-only, ordered sink of directives, and
  says that after a crop the tracked dimensions become the crop's width and height and that
  they stay as they are otherwise; so the call of \<^verbatim>\<open>extract\<close> records the crop's size in the options
  \<open>widthPre\<close> and \<open>heightPre\<close> that \<open>region\<close> reads back, and both are \<open>-1\<close> in a new pipeline.
  The pipeline checks no argument.
\<close>

definition Sharp_new :: Sharp where
  "Sharp_new = \<lparr>calls = [], widthPre = Num (- 1), heightPre = Num (- 1)\<rparr>"

definition emit :: "directive \<Rightarrow> Sharp \<Rightarrow> Sharp" where
  "emit d p = p\<lparr>calls := calls p @ [d]\<rparr>"

definition extract_call :: "jsval \<Rightarrow> jsval \<Rightarrow> jsval \<Rightarrow> jsval \<Rightarrow> Sharp \<Rightarrow> Sharp" where
  "extract_call l t w h p = (emit (Extract l t w h) p)\<lparr>widthPre := w, heightPre := h\<rparr>"

section \<open>Operations\<close>

record Dims =
  width :: jsval
  height :: jsval

record Operations =
  dims :: Dims
  pipeline :: Sharp

text \<open>
  A method call either returns or throws; in both cases the object is left in some state.
\<close>

datatype outcome = Returned Operations | Thrown IIIFError Operations

fun state_of :: "outcome \<Rightarrow> Operations" where
  "state_of (Returned this) = this"
| "state_of (Thrown e this) = this"

definition constructor :: "Dims \<Rightarrow> Operations" where
  "constructor d = \<lparr>dims = d, pipeline = Sharp_new\<rparr>"

definition regionSquare :: "Dims \<Rightarrow> Operations \<Rightarrow> Operations" where
  "regionSquare d this =
     (if \<not> strict_eq (width d) (height d) then
        let side = Math_min (width d) (height d);
            offset = Math_abs (Math_floor (js_div (js_sub (width d) (height d)) (Num 2)))
        in if js_gt (width d) (height d)
           then this\<lparr>pipeline := extract_call offset (Num 0) side side (pipeline this)\<rparr>
           else this\<lparr>pipeline := extract_call (Num 0) offset side side (pipeline this)\<rparr>
      else this)"

definition xywh_array :: "string + jsval list \<Rightarrow> jsval list" where
  \<comment> \<open>the argument of \<^verbatim>\<open>_regionXYWH\<close> as an array: a string is split and converted\<close>
  "xywh_array v = (case v of Inl s \<Rightarrow> map Number (split s) | Inr a \<Rightarrow> a)"

definition regionXYWH :: "string + jsval list \<Rightarrow> Operations \<Rightarrow> outcome" where
  "regionXYWH v this =
     (let a = xywh_array v;
          left = at_index a 0; top = at_index a 1; w = at_index a 2; h = at_index a 3
      in if strict_eq w (Num 0) \<or> strict_eq h (Num 0)
         then Thrown (IIIFError ''Region width and height must both be > 0'') this
         else Returned (this\<lparr>pipeline := extract_call left top w h (pipeline this)\<rparr>))"

definition pct_rect :: "string \<Rightarrow> Dims \<Rightarrow> jsval list" where
  \<comment> \<open>the array \<^verbatim>\<open>[x, y, w, h]\<close> that \<^verbatim>\<open>_regionPct\<close> computes\<close>
  "pct_rect v d =
     (let a = map (\<lambda>pct. js_div64 (Number pct) (Num 100)) (split v);
          x = at_index a 0; y = at_index a 1; w = at_index a 2; h = at_index a 3;
          x = Math_round (js_mul64 (width d) x); w = Math_round (js_mul64 (width d) w);
          y = Math_round (js_mul64 (height d) y); h = Math_round (js_mul64 (height d) h)
      in [x, y, w, h])"

definition regionPct :: "string \<Rightarrow> Dims \<Rightarrow> Operations \<Rightarrow> outcome" where
  "regionPct v d this = regionXYWH (Inr (pct_rect v d)) this"

definition ifPositive :: "jsval \<Rightarrow> jsval \<Rightarrow> jsval" where
  "ifPositive a b = (if js_gt a (Num 0) then a else b)"

definition region :: "string \<Rightarrow> Operations \<Rightarrow> outcome" where
  "region v this =
     (case validate ''region'' v of
        Inl e \<Rightarrow> Thrown e this
      | Inr _ \<Rightarrow>
          (case (if v = ''full'' then Returned this
                 else if v = ''square'' then Returned (regionSquare (dims this) this)
                 else (case match_pct (\<lambda>c. is_digit c \<or> c = CHR '','') v of
                         Some g \<Rightarrow> regionPct g (dims this) this
                       | None \<Rightarrow> regionXYWH (Inl v) this)) of
             Thrown e this' \<Rightarrow> Thrown e this'
           | Returned this' \<Rightarrow>
               Returned (this'\<lparr>dims :=
                 \<lparr>width = ifPositive (widthPre (pipeline this')) (width (dims this')),
                  height = ifPositive (heightPre (pipeline this')) (height (dims this'))\<rparr>\<rparr>)))"

definition sizeWH :: "string + jsval list \<Rightarrow> Operations \<Rightarrow> outcome" where
  "sizeWH v this =
     (let fit = (case v of Inl s \<Rightarrow> if starts_with_bang s then ''inside'' else ''cover''
                 | Inr a \<Rightarrow> ''cover'');
          a = (case v of
                 Inl s \<Rightarrow> map (\<lambda>val. if val = [] then Null else Number val) (split (strip_bang s))
               | Inr a \<Rightarrow> a);
          w = at_index a 0; h = at_index a 1
      in if strict_eq w (Num 0) \<or> strict_eq h (Num 0)
         then Thrown (IIIFError ''Resize width and height must both be > 0'') this
         else Returned (this\<lparr>pipeline := emit (Resize w h fit) (pipeline this)\<rparr>))"

definition sizePct :: "string \<Rightarrow> Dims \<Rightarrow> Operations \<Rightarrow> outcome" where
  "sizePct v d this =
     (let pct = Number v
      in if isNaN pct \<or> js_le pct (Num 0)
         then Thrown (IIIFError (''Invalid resize %: '' @ v)) this
         else let w = Math_round (js_mul64 (width d) (js_div64 pct (Num 100)))
              in sizeWH (Inl (toString w @ '','')) this)"

definition size_op :: "string \<Rightarrow> Operations \<Rightarrow> outcome" where
  \<comment> \<open>the method \<^verbatim>\<open>size\<close>\<close>
  "size_op v this =
     (case validate ''size'' v of
        Inl e \<Rightarrow> Thrown e this
      | Inr _ \<Rightarrow>
          if v = ''full'' \<or> v = ''max'' then Returned this
          else (case match_pct is_digit v of
                  Some g \<Rightarrow> sizePct g (dims this) this
                | None \<Rightarrow> sizeWH (Inl v) this))"

definition rotation :: "string \<Rightarrow> Operations \<Rightarrow> outcome" where
  "rotation v this =
     (case validate ''rotation'' v of
        Inl e \<Rightarrow> Thrown e this
      | Inr _ \<Rightarrow>
          if v = ''0'' then Returned this
          else let this' = (if starts_with_bang v
                            then this\<lparr>pipeline := emit Flop (pipeline this)\<rparr> else this);
                   val = Number (strip_bang v)
               in if isNaN val
                  then Thrown (IIIFError (''Invalid rotation value: '' @ v)) this'
                  else Returned (this'\<lparr>pipeline := emit (Rotate val) (pipeline this')\<rparr>))"

definition quality :: "string \<Rightarrow> Operations \<Rightarrow> outcome" where
  "quality v this =
     (case validate ''quality'' v of
        Inl e \<Rightarrow> Thrown e this
      | Inr _ \<Rightarrow>
          if v = ''color'' \<or> v = ''default'' then Returned this
          else if v = ''gray'' then Returned (this\<lparr>pipeline := emit Grayscale (pipeline this)\<rparr>)
          else if v = ''bitonal'' then Returned (this\<lparr>pipeline := emit Threshold (pipeline this)\<rparr>)
          else Returned this)"

definition format :: "string \<Rightarrow> Operations \<Rightarrow> outcome" where
  "format v this =
     (case validate ''format'' v of
        Inl e \<Rightarrow> Thrown e this
      | Inr _ \<Rightarrow> Returned (this\<lparr>pipeline := emit (ToFormat v) (pipeline this)\<rparr>))"

section \<open>The matcher decides the language\<close>

lemma in_lang_nil_nullable: "in_lang r w \<Longrightarrow> w = [] \<Longrightarrow> nullable r"
  by (induction rule: in_lang.induct) auto

lemma in_lang_deriv: "in_lang r w \<Longrightarrow> w = c # u \<Longrightarrow> in_lang (deriv c r) u"
proof (induction arbitrary: u rule: in_lang.induct)
  case (in_Sym a d)
  then show ?case by (auto intro: in_lang.intros)
next
  case (in_Cat r x s y)
  show ?case
  proof (cases x)
    case Nil
    with in_Cat have "nullable r" and "in_lang (deriv c s) u"
      by (auto dest: in_lang_nil_nullable)
    then show ?thesis by (auto intro: in_lang.intros)
  next
    case (Cons d x')
    with in_Cat have "d = c" and u: "u = x' @ y" and "in_lang (deriv c r) x'" by auto
    with in_Cat(2) have "in_lang (Cat (deriv c r) s) u" by (auto intro: in_lang.intros)
    then show ?thesis by (auto intro: in_lang.intros)
  qed
next
  case (in_RepS r x y)
  show ?case
  proof (cases x)
    case Nil
    with in_RepS show ?thesis by auto
  next
    case (Cons d x')
    with in_RepS have "u = x' @ y" and "in_lang (deriv c r) x'" by auto
    with in_RepS(2) show ?thesis by (auto intro: in_lang.intros)
  qed
qed (auto intro: in_lang.intros)

lemma in_lang_full_match: "in_lang r w \<Longrightarrow> full_match r w"
  by (induction w arbitrary: r) (auto dest: in_lang_nil_nullable in_lang_deriv)

lemma nullable_in_lang: "nullable r \<Longrightarrow> in_lang r []"
proof (induction r)
  case (Cat r s)
  then have "in_lang (Cat r s) ([] @ [])" by (intro in_Cat) simp_all
  then show ?case by simp
qed (auto intro: in_lang.intros)

inductive_cases in_FailE: "in_lang Fail w"
inductive_cases in_EmptyE: "in_lang Empty w"
inductive_cases in_CatE: "in_lang (Cat r s) w"
inductive_cases in_OrE: "in_lang (Or r s) w"

lemma deriv_in_lang: "in_lang (deriv c r) u \<Longrightarrow> in_lang r (c # u)"
proof (induction r arbitrary: u)
  case Fail
  then show ?case by (auto elim: in_FailE)
next
  case Empty
  then show ?case by (auto elim: in_FailE)
next
  case (Sym a)
  then have "atom_ok a c" and "u = []"
    by (auto split: if_splits elim: in_FailE in_EmptyE)
  then show ?case by (simp add: in_Sym)
next
  case (Cat r s)
  have left: "in_lang (Cat r s) (c # u)" if "in_lang (Cat (deriv c r) s) u"
  proof -
    from that obtain x y where "u = x @ y" "in_lang (deriv c r) x" "in_lang s y"
      by (auto elim: in_CatE)
    with Cat.IH(1) have "in_lang (Cat r s) ((c # x) @ y)" by (intro in_Cat) simp_all
    with \<open>u = x @ y\<close> show ?thesis by simp
  qed
  have right: "in_lang (Cat r s) (c # u)" if "nullable r" "in_lang (deriv c s) u"
  proof -
    from that Cat.IH(2) have "in_lang (Cat r s) ([] @ c # u)"
      by (intro in_Cat nullable_in_lang) simp_all
    then show ?thesis by simp
  qed
  from Cat.prems left right show ?case
    by (auto split: if_splits elim: in_OrE)
next
  case (Or r s)
  then show ?case by (auto elim!: in_OrE intro: in_OrL in_OrR)
next
  case (Rep r)
  then obtain x y where "u = x @ y" "in_lang (deriv c r) x" "in_lang (Rep r) y"
    by (auto elim: in_CatE)
  with Rep.IH have "in_lang (Rep r) ((c # x) @ y)" by (intro in_RepS) simp_all
  with \<open>u = x @ y\<close> show ?case by simp
qed

lemma full_match_in_lang: "full_match r w \<Longrightarrow> in_lang r w"
  by (induction w arbitrary: r) (auto intro: nullable_in_lang deriv_in_lang)

lemma full_match_iff: "full_match r w \<longleftrightarrow> in_lang r w"
  by (blast intro: full_match_in_lang in_lang_full_match)

lemma in_lang_Rep_digits: "list_all is_digit ds \<Longrightarrow> in_lang (Rep (Sym Digit)) ds"
proof (induction ds)
  case Nil
  show ?case by (rule in_Rep0)
next
  case (Cons c ds)
  then have "in_lang (Sym Digit) [c]" and "in_lang (Rep (Sym Digit)) ds"
    by (auto intro: in_Sym)
  then have "in_lang (Rep (Sym Digit)) ([c] @ ds)" by (rule in_RepS)
  then show ?case by simp
qed

lemma in_lang_IR: "digits ds \<Longrightarrow> in_lang IR ds"
proof -
  assume "digits ds"
  then obtain c cs where ds: "ds = [c] @ cs" and "is_digit c" and "list_all is_digit cs"
    by (cases ds) (auto simp: digits_def)
  then have "in_lang (Sym Digit) [c]" and "in_lang (Rep (Sym Digit)) cs"
    by (auto intro: in_Sym in_lang_Rep_digits)
  then show ?thesis unfolding IR_def Many1_def ds by (rule in_Cat)
qed

lemma in_lang_comma: "in_lang comma '',''"
  by (simp add: comma_def in_Sym)

lemma in_lang_Maybe_none: "in_lang (Maybe r) []"
  by (simp add: Maybe_def in_OrR in_Empty)

lemma in_lang_Maybe_some: "in_lang r x \<Longrightarrow> in_lang (Maybe r) x"
  by (simp add: Maybe_def in_OrL)

lemma in_lang_FR_int: "digits a \<Longrightarrow> in_lang FR a"
proof -
  assume "digits a"
  then have "in_lang IR a" by (rule in_lang_IR)
  from in_Cat [OF this in_lang_Maybe_none] show ?thesis by (simp add: FR_def)
qed

lemma in_lang_FR_frac:
  assumes "digits a" "digits b" "\<not> is_line_terminator c"
  shows "in_lang FR (a @ c # b)"
proof -
  have "in_lang (Sym AnyChar) [c]" using assms(3) by (simp add: in_Sym)
  from in_Cat [OF this in_lang_IR [OF assms(2)]]
  have "in_lang (Maybe (Cat (Sym AnyChar) IR)) (c # b)"
    by (simp add: in_lang_Maybe_some)
  from in_Cat [OF in_lang_IR [OF assms(1)] this] show ?thesis by (simp add: FR_def)
qed

section \<open>Splitting and converting strings of digits\<close>

lemma digit_plain:
  "is_digit c \<Longrightarrow>
   \<not> is_space c \<and> c \<noteq> CHR '','' \<and> c \<noteq> CHR ''.'' \<and> c \<noteq> CHR ''!'' \<and> c \<noteq> CHR ''+'' \<and> c \<noteq> CHR ''-''
    \<and> c \<noteq> CHR ''p'' \<and> c \<noteq> CHR ''f'' \<and> c \<noteq> CHR ''s'' \<and> c \<noteq> CHR ''m''"
  by (auto simp: is_digit_def is_space_def)

lemma comma_not_space: "\<not> is_space CHR '',''"
  by (simp add: is_space_def)

lemma split_from_plain: "list_all is_digit a \<Longrightarrow> split_from acc a = [rev acc @ a]"
  by (induction a arbitrary: acc) (auto simp: digit_plain)

lemma split_from_sep:
  "list_all is_digit a \<Longrightarrow>
   split_from acc (a @ CHR '','' # rest) = (rev acc @ a) # split_from [] (dropWhile is_space rest)"
  by (induction a arbitrary: acc) (auto simp: digit_plain comma_not_space)

lemma dropWhile_space_digits: "digits a \<Longrightarrow> dropWhile is_space (a @ r) = a @ r"
  by (cases a) (auto simp: digits_def digit_plain)

lemma split_2a: "digits a \<Longrightarrow> split (a @ '','') = [a, []]"
  by (simp add: split_def split_from_sep digits_def)

lemma split_2b: "digits b \<Longrightarrow> split (CHR '','' # b) = [Nil, b]"
  using split_from_sep [of "[]" "[]" b] dropWhile_space_digits [of b "[]"]
  by (simp add: split_def split_from_plain digits_def)

lemma split_2: "digits a \<Longrightarrow> digits b \<Longrightarrow> split (a @ CHR '','' # b) = [a, b]"
  using dropWhile_space_digits [of b "[]"]
  by (simp add: split_def split_from_sep split_from_plain digits_def)

lemma split_4:
  assumes "digits x" "digits y" "digits w" "digits h"
  shows "split (x @ CHR '','' # y @ CHR '','' # w @ CHR '','' # h) = [x, y, w, h]"
proof -
  have "split_from [] (w @ CHR '','' # h) = [w, h]"
    using split_2 [OF assms(3,4)] by (simp add: split_def)
  then have "split_from [] (y @ CHR '','' # w @ CHR '','' # h) = [y, w, h]"
    using assms(2,3) by (simp add: split_from_sep dropWhile_space_digits digits_def)
  then show ?thesis
    using assms(1,2) by (simp add: split_def split_from_sep dropWhile_space_digits digits_def)
qed

lemma trim_digits_ends:
  assumes "s \<noteq> []" "is_digit (hd s)" "is_digit (last s)"
  shows "trim s = s"
proof -
  have "dropWhile is_space s = s"
    using assms by (cases s) (auto simp: digit_plain)
  moreover have "dropWhile is_space (rev s) = rev s"
    using assms by (cases "rev s") (auto simp: digit_plain last_rev [symmetric] simp del: last_rev)
  ultimately show ?thesis by (simp add: trim_def)
qed

lemma radix_letter_no_digit:
  "is_digit k \<or> k = CHR ''.'' \<Longrightarrow> k \<notin> set ''xX'' \<and> k \<notin> set ''oO'' \<and> k \<notin> set ''bB''"
  by (auto simp: is_digit_def)

lemma non_decimal_None:
  assumes "list_all (\<lambda>c. is_digit c \<or> c = CHR ''.'') s"
  shows "non_decimal s = None"
proof (cases s)
  case Nil
  then show ?thesis by (simp add: non_decimal_def)
next
  case (Cons z t)
  show ?thesis
  proof (cases t)
    case Nil
    with Cons show ?thesis by (simp add: non_decimal_def)
  next
    case (Cons k ds)
    with assms \<open>s = z # t\<close> have "is_digit k \<or> k = CHR ''.''" by simp
    from radix_letter_no_digit [OF this] show ?thesis
      unfolding non_decimal_def \<open>s = z # t\<close> Cons by simp
  qed
qed

lemma takeWhile_digits: "list_all is_digit a \<Longrightarrow> takeWhile is_digit a = a"
  by (simp add: list_all_iff)

lemma dropWhile_digits: "list_all is_digit a \<Longrightarrow> dropWhile is_digit a = []"
  by (simp add: list_all_iff)

lemma unsigned_decimal_digits: "digits a \<Longrightarrow> unsigned_decimal a = Some (dec a)"
  by (simp add: unsigned_decimal_def digits_def takeWhile_digits dropWhile_digits exponent_part_def
      scale10_def radix_val_def dec_def)

lemma Number_digits:
  assumes "digits a" shows "Number a = Num (dec a)"
proof -
  from assms have ne: "a \<noteq> []" and all: "list_all is_digit a" by (simp_all add: digits_def)
  then have "is_digit (hd a)" and "is_digit (last a)"
    by (simp_all add: list_all_iff)
  with ne have "trim a = a" by (simp add: trim_digits_ends)
  moreover have "non_decimal a = None"
    using all by (intro non_decimal_None) (simp add: list_all_iff)
  moreover have "hd a \<noteq> CHR ''+''" "hd a \<noteq> CHR ''-''"
    using \<open>is_digit (hd a)\<close> by (auto simp: digit_plain)
  ultimately show ?thesis
    using ne by (simp add: Number_def unsigned_decimal_digits [OF assms])
qed

lemma unsigned_decimal_frac:
  "digits a \<Longrightarrow> digits b \<Longrightarrow>
   unsigned_decimal (a @ CHR ''.'' # b) = Some (dec a + dec b / 10 ^ length b)"
  by (simp add: unsigned_decimal_def digits_def takeWhile_digits dropWhile_digits exponent_part_def
      scale10_def dec_def takeWhile_append2 dropWhile_append2 list_all_iff is_digit_def)

lemma Number_frac:
  assumes "digits a" "digits b"
  shows "Number (a @ CHR ''.'' # b) = Num (dec a + dec b / 10 ^ length b)"
proof -
  let ?s = "a @ CHR ''.'' # b"
  from assms have ne: "a \<noteq> []" "b \<noteq> []" and all: "list_all is_digit a" "list_all is_digit b"
    by (simp_all add: digits_def)
  then have "is_digit (hd ?s)" and "is_digit (last ?s)"
    by (simp_all add: list_all_iff)
  then have "trim ?s = ?s" by (simp add: trim_digits_ends)
  moreover have "non_decimal ?s = None"
    using all by (intro non_decimal_None) (auto simp: list_all_iff)
  moreover have "hd ?s \<noteq> CHR ''+''" "hd ?s \<noteq> CHR ''-''"
    using \<open>is_digit (hd ?s)\<close> by (auto simp: digit_plain simp del: hd_append2)
  ultimately show ?thesis
    by (simp add: Number_def unsigned_decimal_frac [OF assms])
qed

section \<open>The grammar of rotation\<close>

text \<open>
  C1. The claim: a string is accepted by \<open>validate\<close> exactly when the whole of it matches the
  grammar of its kind, and rotation accepts exactly an optional \<^verbatim>\<open>!\<close> and a non-negative
  decimal. The pattern of the source has an unescaped \<^verbatim>\<open>.\<close> between the two runs of digits,
  so the rotation \<^verbatim>\<open>1x5\<close>, which is no decimal, is accepted.
\<close>

theorem validate_rotation_wildcard: "validate ''rotation'' ''1x5'' = Inr True"
  by code_simp

section \<open>A rotation that fails after the flip\<close>

lemma validate_bang_1x5: "validate ''rotation'' ''!1x5'' = Inr True"
  by code_simp

lemma Number_1x5: "Number ''1x5'' = NaN"
  by code_simp

text \<open>
  C2. The claim: a call that fails emits no directive and leaves the pipeline unchanged.
  The rotation \<^verbatim>\<open>!1x5\<close> passes \<open>validate\<close>, the flip is emitted, and only then the numeric
  check throws: the failing call has appended \<open>Flop\<close> to the pipeline.
\<close>

theorem rotation_flop_then_throw:
  "rotation ''!1x5'' this =
     Thrown (IIIFError ''Invalid rotation value: !1x5'')
       (this\<lparr>pipeline := emit Flop (pipeline this)\<rparr>)
   \<and> calls (pipeline (state_of (rotation ''!1x5'' this))) = calls (pipeline this) @ [Flop]"
  by (simp add: rotation_def validate_bang_1x5 Number_1x5 starts_with_bang_def strip_bang_def
      isNaN_def emit_def)

section \<open>Percentages with a fraction\<close>

text \<open>
  C4. The claim: for every accepted \<^verbatim>\<open>pct:X,Y,W,H\<close> with decimal percentages, \<open>region\<close>
  converts all four to pixels, \<open>h = round(height * H / 100)\<close> and so on. The dispatch of
  \<open>region\<close> captures digits and commas only, so the capture stops at the first fraction:
  on a 200 by 200 image \<^verbatim>\<open>pct:0,0,50,50.5\<close> gives the height 100, not 101, and on a 200
  by 100 image the accepted \<^verbatim>\<open>pct:10.5,10,50,50\<close> is captured as \<^verbatim>\<open>10\<close>, which leaves three of
  the four values of the rectangle undefined.
\<close>

theorem region_pct_fraction_dropped:
  "region ''pct:0,0,50,50.5'' (constructor \<lparr>width = Num 200, height = Num 200\<rparr>) =
     Returned \<lparr>dims = \<lparr>width = Num 100, height = Num 100\<rparr>,
               pipeline = \<lparr>calls = [Extract (Num 0) (Num 0) (Num 100) (Num 100)],
                           widthPre = Num 100, heightPre = Num 100\<rparr>\<rparr>
   \<and> validate ''region'' ''pct:10.5,10,50,50'' = Inr True
   \<and> match_pct (\<lambda>c. is_digit c \<or> c = CHR '','') ''pct:10.5,10,50,50'' = Some ''10''
   \<and> pct_rect ''10'' \<lparr>width = Num 200, height = Num 100\<rparr> = [Num 20, NaN, NaN, NaN]"
  by code_simp

text \<open>
  C7. The claim: for every accepted \<^verbatim>\<open>pct:P\<close>, \<open>size\<close> fails when \<open>P\<close> is not positive and
  resizes to the width \<open>round(width * P / 100)\<close> otherwise. The dispatch of \<open>size\<close> captures
  the digits before the fraction only: \<^verbatim>\<open>pct:0.5\<close> is refused as the percentage 0, and
  \<^verbatim>\<open>pct:50.5\<close> on the width 200 resizes to 100, not 101.
\<close>

theorem size_pct_fraction_dropped:
  "size_op ''pct:0.5'' (constructor \<lparr>width = Num 1000, height = Num 1000\<rparr>) =
     Thrown (IIIFError ''Invalid resize %: 0'')
       (constructor \<lparr>width = Num 1000, height = Num 1000\<rparr>)
   \<and> size_op ''pct:50.5'' (constructor \<lparr>width = Num 200, height = Num 100\<rparr>) =
     Returned \<lparr>dims = \<lparr>width = Num 200, height = Num 100\<rparr>,
               pipeline = \<lparr>calls = [Resize (Num 100) Null ''cover''],
                           widthPre = Num (- 1), heightPre = Num (- 1)\<rparr>\<rparr>"
  by code_simp

text \<open>
  Where binary64 rounds, the percentage forms follow it: 29 percent of 50 is
  \<open>50 * 0.29 = 14.499999999999998\<close> in binary64 and rounds to 14, where the exact \<open>14.5\<close>
  would round to 15.
\<close>

lemma size_pct_29_of_50:
  "size_op ''pct:29'' (constructor \<lparr>width = Num 50, height = Num 50\<rparr>) =
     Returned \<lparr>dims = \<lparr>width = Num 50, height = Num 50\<rparr>,
               pipeline = \<lparr>calls = [Resize (Num 14) Null ''cover''],
                           widthPre = Num (- 1), heightPre = Num (- 1)\<rparr>\<rparr>"
  by code_simp

lemma region_pct_29_of_50:
  "region ''pct:0,0,29,29'' (constructor \<lparr>width = Num 50, height = Num 50\<rparr>) =
     Returned \<lparr>dims = \<lparr>width = Num 14, height = Num 14\<rparr>,
               pipeline = \<lparr>calls = [Extract (Num 0) (Num 0) (Num 14) (Num 14)],
                           widthPre = Num 14, heightPre = Num 14\<rparr>\<rparr>"
  by code_simp

section \<open>The square region\<close>

text \<open>
  C3, as stated: the offset of the square crop is \<open>floor(|width - height| / 2)\<close>. On a 100
  by 201 image the source computes \<open>|floor((100 - 201) / 2)| = 51\<close>, and the claimed offset
  is 50.
\<close>

theorem region_square_portrait_counterexample:
  "region ''square'' (constructor \<lparr>width = Num 100, height = Num 201\<rparr>) =
     Returned \<lparr>dims = \<lparr>width = Num 100, height = Num 100\<rparr>,
               pipeline = \<lparr>calls = [Extract (Num 0) (Num 51) (Num 100) (Num 100)],
                           widthPre = Num 100, heightPre = Num 100\<rparr>\<rparr>
   \<and> (51 :: rat) \<noteq> of_int \<lfloor>\<bar>100 - 201\<bar> / (2 :: rat)\<rfloor>"
  by code_simp

lemma validate_square: "validate ''region'' ''square'' = Inr True"
  by code_simp

lemma floor_half_diff: "\<lfloor>(rat_of_int w - rat_of_int h) / 2\<rfloor> = (w - h) div 2"
  using floor_divide_of_int_eq [of "w - h" 2, where ?'a = rat] by simp

text \<open>
  C3, amended: on integer dimensions \<open>w\<close> and \<open>h\<close>, \<open>region('square')\<close> returns; it emits
  nothing when \<open>w = h\<close>, and otherwise exactly one extract of side \<open>min w h\<close>, at left
  \<open>floor((w - h) / 2)\<close> and top 0 when \<open>w > h\<close>, at left 0 and top \<open>ceiling((h - w) / 2)\<close>,
  which is \<open>|floor((w - h) / 2)|\<close>, when \<open>h > w\<close>.
\<close>

theorem region_square_crop:
  assumes "dims this = \<lparr>width = Num (of_int w), height = Num (of_int h)\<rparr>"
  shows "\<exists>this'. region ''square'' this = Returned this' \<and>
           calls (pipeline this') = calls (pipeline this) @
             (if w = h then []
              else if h < w then
                [Extract (Num (of_int ((w - h) div 2))) (Num 0) (Num (of_int h)) (Num (of_int h))]
              else
                [Extract (Num 0) (Num (of_int ((h - w + 1) div 2))) (Num (of_int w)) (Num (of_int w))])"
proof -
  have abs_eq: "\<bar>(w - h) div 2\<bar> = (h - w + 1) div 2" if "w < h"
    using that by linarith
  show ?thesis
    using assms abs_eq
    by (simp add: region_def validate_square regionSquare_def strict_eq_def Math_min_def
        Math_abs_def Math_floor_def js_div_def js_sub_def js_gt_def arith_def floor_half_diff
        extract_call_def emit_def Let_def min_def flip: of_int_abs)
qed

theorem region_square_crop_witness:
  "dims (constructor \<lparr>width = Num 200, height = Num 100\<rparr>) =
     \<lparr>width = Num (of_int 200), height = Num (of_int 100)\<rparr>
   \<and> (\<exists>this'. region ''square'' (constructor \<lparr>width = Num 200, height = Num 100\<rparr>) = Returned this' \<and>
         calls (pipeline this') = [Extract (Num 50) (Num 0) (Num 100) (Num 100)])"
  using region_square_crop [of "constructor \<lparr>width = Num 200, height = Num 100\<rparr>" 200 100]
  by (simp add: constructor_def Sharp_new_def)

section \<open>Pixel regions and the zero-area check\<close>

lemma validate_in_lang: "in_lang (validator type) v \<Longrightarrow> validate type v = Inr True"
  by (simp add: validate_def in_lang_full_match)

lemma validator_region:
  "validator ''region'' =
     Or (word ''full'') (Or (word ''square'')
       (Or (cats [word ''pct:'', FR, comma, FR, comma, FR, comma, FR])
           (Cat IR (Cat comma (Cat IR (Cat comma (Cat IR (Cat comma IR))))))))"
  by (simp add: validator_def Validators_def)

lemma validate_region_pixels:
  assumes "digits x" "digits y" "digits w" "digits h"
  shows "validate ''region'' (x @ '','' @ y @ '','' @ w @ '','' @ h) = Inr True"
proof -
  have "in_lang (Cat comma IR) ('','' @ h)"
    by (rule in_Cat [OF in_lang_comma in_lang_IR [OF assms(4)]])
  then have "in_lang (Cat IR (Cat comma IR)) (w @ '','' @ h)"
    by (rule in_Cat [OF in_lang_IR [OF assms(3)]])
  then have "in_lang (Cat comma (Cat IR (Cat comma IR))) ('','' @ w @ '','' @ h)"
    by (rule in_Cat [OF in_lang_comma])
  then have "in_lang (Cat IR (Cat comma (Cat IR (Cat comma IR)))) (y @ '','' @ w @ '','' @ h)"
    by (rule in_Cat [OF in_lang_IR [OF assms(2)]])
  then have "in_lang (Cat comma (Cat IR (Cat comma (Cat IR (Cat comma IR)))))
               ('','' @ y @ '','' @ w @ '','' @ h)"
    by (rule in_Cat [OF in_lang_comma])
  then have "in_lang (Cat IR (Cat comma (Cat IR (Cat comma (Cat IR (Cat comma IR))))))
               (x @ '','' @ y @ '','' @ w @ '','' @ h)"
    by (rule in_Cat [OF in_lang_IR [OF assms(1)]])
  then have "in_lang (validator ''region'') (x @ '','' @ y @ '','' @ w @ '','' @ h)"
    unfolding validator_region by (intro in_OrR)
  then show ?thesis by (rule validate_in_lang)
qed

lemma not_literal: 
  assumes "digits a"
  shows "a @ r \<noteq> ''full''" "a @ r \<noteq> ''square''" "a @ r \<noteq> ''max''" "take 4 (a @ r) \<noteq> ''pct:''"
  using assms by (cases a; auto simp: digits_def dest: digit_plain)+

lemma match_pct_digits: "digits a \<Longrightarrow> match_pct C (a @ r) = None"
  unfolding match_pct_def using not_literal(4) [of a r] by (simp del: take_append)

text \<open>
  C10. For strings of digits \<open>x\<close>, \<open>y\<close>, \<open>w\<close> and \<open>h\<close> with \<open>w\<close> and \<open>h\<close> not zero, and in every
  state, \<open>region\<close> of \<^verbatim>\<open>x,y,w,h\<close> returns, has emitted the extract of exactly these four
  numbers, and has set the tracked dimensions to \<open>w\<close> by \<open>h\<close>. The dimensions before the call
  do not occur on the right-hand side: nothing is clamped or checked against them.
\<close>

theorem region_pixels_verbatim:
  assumes "digits x" "digits y" "digits w" "digits h" and "0 < dec w" "0 < dec h"
  shows "region (x @ '','' @ y @ '','' @ w @ '','' @ h) this =
           Returned \<lparr>dims = \<lparr>width = Num (dec w), height = Num (dec h)\<rparr>,
                     pipeline = extract_call (Num (dec x)) (Num (dec y)) (Num (dec w)) (Num (dec h))
                                  (pipeline this)\<rparr>"
proof -
  let ?v = "x @ '','' @ y @ '','' @ w @ '','' @ h"
  have "validate ''region'' ?v = Inr True"
    using assms(1-4) by (rule validate_region_pixels)
  moreover have "?v \<noteq> ''full''" "?v \<noteq> ''square''" "match_pct (\<lambda>c. is_digit c \<or> c = CHR '','') ?v = None"
    using assms(1) by (rule not_literal match_pct_digits)+
  moreover have "xywh_array (Inl ?v) = [Num (dec x), Num (dec y), Num (dec w), Num (dec h)]"
    using assms(1-4) by (simp add: xywh_array_def split_4 Number_digits)
  ultimately show ?thesis
    using assms(5,6)
    by (simp add: region_def regionXYWH_def at_index_def strict_eq_def extract_call_def emit_def
        ifPositive_def js_gt_def Let_def)
qed

theorem region_pixels_verbatim_witness:
  "digits ''150'' \<and> digits ''20'' \<and> digits ''300'' \<and> digits ''400''
   \<and> 0 < dec ''300'' \<and> 0 < dec ''400''
   \<and> region ''150,20,300,400'' (constructor \<lparr>width = Num 200, height = Num 100\<rparr>) =
       Returned \<lparr>dims = \<lparr>width = Num 300, height = Num 400\<rparr>,
                 pipeline = \<lparr>calls = [Extract (Num 150) (Num 20) (Num 300) (Num 400)],
                             widthPre = Num 300, heightPre = Num 400\<rparr>\<rparr>"
proof -
  have d: "digits ''150''" "digits ''20''" "digits ''300''" "digits ''400''"
    by code_simp+
  have v: "dec ''150'' = 150" "dec ''20'' = 20" "dec ''300'' = 300" "dec ''400'' = 400"
    by code_simp+
  have p: "0 < dec ''300''" "0 < dec ''400''"
    by (simp_all add: v)
  from region_pixels_verbatim [OF d p, of "constructor \<lparr>width = Num 200, height = Num 100\<rparr>"]
  show ?thesis
    using d p by (simp add: v constructor_def Sharp_new_def extract_call_def emit_def)
qed

text \<open>
  C5. The claim: a region call in pixel or percentage form fails with the zero-area error
  exactly when the computed width or height is 0, the percentages being converted as
  \<open>w = round(width * W / 100)\<close>. On a 1000 by 1000 image the accepted \<^verbatim>\<open>pct:0,0,0.5,50\<close> has
  the width \<open>round(1000 * 0.5 / 100) = 5\<close> and the height 500, yet the dispatch captures
  \<^verbatim>\<open>0,0,0\<close> only, the width becomes 0 and the call throws the zero-area error.
\<close>

theorem region_zero_area_on_fraction:
  "validate ''region'' ''pct:0,0,0.5,50'' = Inr True
   \<and> region ''pct:0,0,0.5,50'' (constructor \<lparr>width = Num 1000, height = Num 1000\<rparr>) =
       Thrown (IIIFError ''Region width and height must both be > 0'')
         (constructor \<lparr>width = Num 1000, height = Num 1000\<rparr>)
   \<and> Math_round (js_mul64 (Num 1000) (js_div64 (Num (1 / 2)) (Num 100))) = Num 5
   \<and> Math_round (js_mul64 (Num 1000) (js_div64 (Num 50) (Num 100))) = Num 500"
  by code_simp

section \<open>Explicit sizes\<close>

lemma validator_size:
  "validator ''size'' =
     Or (word ''full'') (Or (word ''max'') (Or (Cat (word ''pct:'') FR)
       (Or (Cat IR comma) (Or (Cat comma IR)
         (Cat (Maybe (Sym (Lit CHR ''!''))) (Cat IR (Cat comma IR)))))))"
  by (simp add: validator_def Validators_def)

lemma in_lang_pair:
  assumes "digits a" "digits b"
  shows "in_lang (Cat IR (Cat comma IR)) (a @ '','' @ b)"
  by (intro in_Cat in_lang_IR in_lang_comma assms)

lemma in_lang_bang: "in_lang (Sym (Lit CHR ''!'')) ''!''"
  by (simp add: in_Sym)

lemma validate_size_forms:
  assumes "digits a" "digits b"
  shows "validate ''size'' (a @ '','') = Inr True"
    and "validate ''size'' ('','' @ b) = Inr True"
    and "validate ''size'' (a @ '','' @ b) = Inr True"
    and "validate ''size'' (''!'' @ a @ '','' @ b) = Inr True"
proof -
  have "in_lang (Cat IR comma) (a @ '','')"
    by (intro in_Cat in_lang_IR in_lang_comma assms)
  then have "in_lang (validator ''size'') (a @ '','')"
    unfolding validator_size by (intro in_OrR in_OrL)
  then show "validate ''size'' (a @ '','') = Inr True" by (rule validate_in_lang)
  have "in_lang (Cat comma IR) ('','' @ b)"
    by (intro in_Cat in_lang_IR in_lang_comma assms)
  then have "in_lang (validator ''size'') ('','' @ b)"
    unfolding validator_size by (intro in_OrR in_OrL)
  then show "validate ''size'' ('','' @ b) = Inr True" by (rule validate_in_lang)
  have "in_lang (Cat (Maybe (Sym (Lit CHR ''!''))) (Cat IR (Cat comma IR))) ([] @ a @ '','' @ b)"
    by (intro in_Cat in_lang_Maybe_none in_lang_pair assms)
  then have "in_lang (validator ''size'') ([] @ a @ '','' @ b)"
    unfolding validator_size by (intro in_OrR)
  then show "validate ''size'' (a @ '','' @ b) = Inr True" by (simp add: validate_in_lang)
  have "in_lang (Cat (Maybe (Sym (Lit CHR ''!''))) (Cat IR (Cat comma IR))) (''!'' @ a @ '','' @ b)"
    by (intro in_Cat in_lang_Maybe_some in_lang_bang in_lang_pair assms)
  then have "in_lang (validator ''size'') (''!'' @ a @ '','' @ b)"
    unfolding validator_size by (intro in_OrR)
  then show "validate ''size'' (''!'' @ a @ '','' @ b) = Inr True" by (rule validate_in_lang)
qed

lemma bang_digits: "digits a \<Longrightarrow> \<not> starts_with_bang (a @ r) \<and> strip_bang (a @ r) = a @ r"
  by (cases a) (auto simp: digits_def starts_with_bang_def strip_bang_def dest: digit_plain)

lemma match_pct_other: "c \<noteq> CHR ''p'' \<Longrightarrow> match_pct C (c # r) = None"
  by (simp add: match_pct_def)

lemma sizeWH_width:
  assumes "digits a"
  shows "sizeWH (Inl (a @ '','')) this =
           (if dec a = 0
            then Thrown (IIIFError ''Resize width and height must both be > 0'') this
            else Returned (this\<lparr>pipeline := emit (Resize (Num (dec a)) Null ''cover'') (pipeline this)\<rparr>))"
proof -
  have "a \<noteq> []" using assms by (simp add: digits_def)
  then show ?thesis
    using bang_digits [OF assms, of "'',''"] split_2a [OF assms] Number_digits [OF assms]
    by (simp add: sizeWH_def at_index_def strict_eq_def Let_def)
qed

lemma sizeWH_height:
  assumes "digits b"
  shows "sizeWH (Inl ('','' @ b)) this =
           (if dec b = 0
            then Thrown (IIIFError ''Resize width and height must both be > 0'') this
            else Returned (this\<lparr>pipeline := emit (Resize Null (Num (dec b)) ''cover'') (pipeline this)\<rparr>))"
proof -
  have "b \<noteq> []" using assms by (simp add: digits_def)
  then show ?thesis
    using split_2b [OF assms] Number_digits [OF assms]
    by (simp add: sizeWH_def at_index_def strict_eq_def Let_def starts_with_bang_def strip_bang_def)
qed

lemma sizeWH_both:
  assumes "digits a" "digits b"
  shows "sizeWH (Inl (a @ '','' @ b)) this =
           (if dec a = 0 \<or> dec b = 0
            then Thrown (IIIFError ''Resize width and height must both be > 0'') this
            else Returned (this\<lparr>pipeline :=
                   emit (Resize (Num (dec a)) (Num (dec b)) ''cover'') (pipeline this)\<rparr>))"
proof -
  have "a \<noteq> []" "b \<noteq> []" using assms by (simp_all add: digits_def)
  then show ?thesis
    using bang_digits [OF assms(1), of "'','' @ b"] split_2 [OF assms]
      Number_digits [OF assms(1)] Number_digits [OF assms(2)]
    by (simp add: sizeWH_def at_index_def strict_eq_def Let_def)
qed

lemma sizeWH_inside:
  assumes "digits a" "digits b"
  shows "sizeWH (Inl (''!'' @ a @ '','' @ b)) this =
           (if dec a = 0 \<or> dec b = 0
            then Thrown (IIIFError ''Resize width and height must both be > 0'') this
            else Returned (this\<lparr>pipeline :=
                   emit (Resize (Num (dec a)) (Num (dec b)) ''inside'') (pipeline this)\<rparr>))"
proof -
  have "a \<noteq> []" "b \<noteq> []" using assms by (simp_all add: digits_def)
  then show ?thesis
    using split_2 [OF assms] Number_digits [OF assms(1)] Number_digits [OF assms(2)]
    by (simp add: sizeWH_def at_index_def strict_eq_def Let_def starts_with_bang_def strip_bang_def)
qed

text \<open>
  C6. For strings of digits \<open>a\<close> and \<open>b\<close>, in every state: \<^verbatim>\<open>a,\<close> resizes to the width \<open>a\<close>
  with the height null and the fit cover, \<^verbatim>\<open>,b\<close> to the height \<open>b\<close> with the width null,
  \<^verbatim>\<open>a,b\<close> to both with the fit cover and \<^verbatim>\<open>!a,b\<close> to both with the fit inside. When a
  given dimension is 0 the call throws the zero-size error and the state is as before;
  otherwise it returns and has emitted that one resize.
\<close>

theorem size_explicit_forms:
  assumes "digits a" "digits b"
  shows "size_op (a @ '','') this =
           (if dec a = 0
            then Thrown (IIIFError ''Resize width and height must both be > 0'') this
            else Returned (this\<lparr>pipeline := emit (Resize (Num (dec a)) Null ''cover'') (pipeline this)\<rparr>))
       \<and> size_op ('','' @ b) this =
           (if dec b = 0
            then Thrown (IIIFError ''Resize width and height must both be > 0'') this
            else Returned (this\<lparr>pipeline := emit (Resize Null (Num (dec b)) ''cover'') (pipeline this)\<rparr>))
       \<and> size_op (a @ '','' @ b) this =
           (if dec a = 0 \<or> dec b = 0
            then Thrown (IIIFError ''Resize width and height must both be > 0'') this
            else Returned (this\<lparr>pipeline :=
                   emit (Resize (Num (dec a)) (Num (dec b)) ''cover'') (pipeline this)\<rparr>))
       \<and> size_op (''!'' @ a @ '','' @ b) this =
           (if dec a = 0 \<or> dec b = 0
            then Thrown (IIIFError ''Resize width and height must both be > 0'') this
            else Returned (this\<lparr>pipeline :=
                   emit (Resize (Num (dec a)) (Num (dec b)) ''inside'') (pipeline this)\<rparr>))"
proof (intro conjI)
  show "size_op (a @ '','') this =
           (if dec a = 0
            then Thrown (IIIFError ''Resize width and height must both be > 0'') this
            else Returned (this\<lparr>pipeline := emit (Resize (Num (dec a)) Null ''cover'') (pipeline this)\<rparr>))"
    using validate_size_forms(1) [OF assms] not_literal [OF assms(1), of "'',''"]
      match_pct_digits [OF assms(1), of is_digit "'',''"] sizeWH_width [OF assms(1), of this]
    by (simp add: size_op_def)
  show "size_op ('','' @ b) this =
           (if dec b = 0
            then Thrown (IIIFError ''Resize width and height must both be > 0'') this
            else Returned (this\<lparr>pipeline := emit (Resize Null (Num (dec b)) ''cover'') (pipeline this)\<rparr>))"
    using validate_size_forms(2) [OF assms] sizeWH_height [OF assms(2), of this]
    by (simp add: size_op_def match_pct_other)
  show "size_op (a @ '','' @ b) this =
           (if dec a = 0 \<or> dec b = 0
            then Thrown (IIIFError ''Resize width and height must both be > 0'') this
            else Returned (this\<lparr>pipeline :=
                   emit (Resize (Num (dec a)) (Num (dec b)) ''cover'') (pipeline this)\<rparr>))"
    using validate_size_forms(3) [OF assms] not_literal [OF assms(1), of "'','' @ b"]
      match_pct_digits [OF assms(1), of is_digit "'','' @ b"] sizeWH_both [OF assms, of this]
    by (simp add: size_op_def)
  show "size_op (''!'' @ a @ '','' @ b) this =
           (if dec a = 0 \<or> dec b = 0
            then Thrown (IIIFError ''Resize width and height must both be > 0'') this
            else Returned (this\<lparr>pipeline :=
                   emit (Resize (Num (dec a)) (Num (dec b)) ''inside'') (pipeline this)\<rparr>))"
    using validate_size_forms(4) [OF assms] sizeWH_inside [OF assms, of this]
    by (simp add: size_op_def match_pct_other)
qed

theorem size_explicit_forms_witness:
  "digits ''50''
   \<and> size_op ''50,'' (constructor \<lparr>width = Num 200, height = Num 100\<rparr>) =
       Returned \<lparr>dims = \<lparr>width = Num 200, height = Num 100\<rparr>,
                 pipeline = \<lparr>calls = [Resize (Num 50) Null ''cover''],
                             widthPre = Num (- 1), heightPre = Num (- 1)\<rparr>\<rparr>
   \<and> size_op ''!50,50'' (constructor \<lparr>width = Num 200, height = Num 100\<rparr>) =
       Returned \<lparr>dims = \<lparr>width = Num 200, height = Num 100\<rparr>,
                 pipeline = \<lparr>calls = [Resize (Num 50) (Num 50) ''inside''],
                             widthPre = Num (- 1), heightPre = Num (- 1)\<rparr>\<rparr>"
proof -
  have d: "digits ''50''"
    by code_simp
  have v: "dec ''50'' = 50"
    by code_simp
  from size_explicit_forms [OF d d, of "constructor \<lparr>width = Num 200, height = Num 100\<rparr>"]
  show ?thesis
    using d by (simp add: v constructor_def Sharp_new_def emit_def)
qed

section \<open>Rotation\<close>

lemma validator_rotation: "validator ''rotation'' = Cat (Maybe (Sym (Lit CHR ''!''))) FR"
  by (simp add: validator_def Validators_def)

lemma validate_rotation_forms:
  assumes "digits a" "digits b"
  shows "validate ''rotation'' a = Inr True"
    and "validate ''rotation'' (a @ ''.'' @ b) = Inr True"
    and "validate ''rotation'' (''!'' @ a) = Inr True"
    and "validate ''rotation'' (''!'' @ a @ ''.'' @ b) = Inr True"
proof -
  have dot: "\<not> is_line_terminator CHR ''.''"
    by (simp add: is_line_terminator_def)
  have int: "in_lang FR a"
    using assms(1) by (rule in_lang_FR_int)
  have frac: "in_lang FR (a @ ''.'' @ b)"
    using in_lang_FR_frac [OF assms dot] by simp
  have "in_lang (validator ''rotation'') ([] @ a)"
    unfolding validator_rotation by (intro in_Cat in_lang_Maybe_none int)
  then show "validate ''rotation'' a = Inr True" by (simp add: validate_in_lang)
  have "in_lang (validator ''rotation'') ([] @ a @ ''.'' @ b)"
    unfolding validator_rotation by (intro in_Cat in_lang_Maybe_none frac)
  then show "validate ''rotation'' (a @ ''.'' @ b) = Inr True" by (simp add: validate_in_lang)
  have "in_lang (validator ''rotation'') (''!'' @ a)"
    unfolding validator_rotation by (intro in_Cat in_lang_Maybe_some in_lang_bang int)
  then show "validate ''rotation'' (''!'' @ a) = Inr True" by (rule validate_in_lang)
  have "in_lang (validator ''rotation'') (''!'' @ a @ ''.'' @ b)"
    unfolding validator_rotation by (intro in_Cat in_lang_Maybe_some in_lang_bang frac)
  then show "validate ''rotation'' (''!'' @ a @ ''.'' @ b) = Inr True" by (rule validate_in_lang)
qed

lemma validate_rotation_0: "validate ''rotation'' ''0'' = Inr True"
  by code_simp

lemma rotation_plain:
  assumes "validate ''rotation'' v = Inr True" and "v \<noteq> ''0''" and "\<not> starts_with_bang v"
    and "Number (strip_bang v) = Num q"
  shows "rotation v this =
           Returned (this\<lparr>pipeline := (pipeline this)\<lparr>calls := calls (pipeline this) @ [Rotate (Num q)]\<rparr>\<rparr>)"
  using assms by (simp add: rotation_def isNaN_def emit_def)

lemma rotation_mirrored:
  assumes "validate ''rotation'' v = Inr True" and "v \<noteq> ''0''" and "starts_with_bang v"
    and "Number (strip_bang v) = Num q"
  shows "rotation v this =
           Returned (this\<lparr>pipeline :=
             (pipeline this)\<lparr>calls := calls (pipeline this) @ [Flop, Rotate (Num q)]\<rparr>\<rparr>)"
  using assms by (simp add: rotation_def isNaN_def emit_def)

text \<open>
  C8. In every state \<open>rotation('0')\<close> returns and emits nothing. For strings of digits \<open>a\<close>
  and \<open>b\<close>, the values of the declared grammar: \<open>a\<close> other than \<^verbatim>\<open>0\<close>, and \<^verbatim>\<open>a.b\<close>, emit only
  the rotate by their decimal value; \<^verbatim>\<open>!a\<close> and \<^verbatim>\<open>!a.b\<close> emit the flip and then the rotate
  by the decimal value after the \<^verbatim>\<open>!\<close>, in that order.
\<close>

theorem rotation_flip_then_rotate:
  assumes "digits a" "digits b"
  shows "rotation ''0'' this = Returned this
       \<and> (a \<noteq> ''0'' \<longrightarrow> rotation a this =
            Returned (this\<lparr>pipeline :=
              (pipeline this)\<lparr>calls := calls (pipeline this) @ [Rotate (Num (dec a))]\<rparr>\<rparr>))
       \<and> rotation (a @ ''.'' @ b) this =
            Returned (this\<lparr>pipeline :=
              (pipeline this)\<lparr>calls := calls (pipeline this) @
                [Rotate (Num (dec a + dec b / 10 ^ length b))]\<rparr>\<rparr>)
       \<and> rotation (''!'' @ a) this =
            Returned (this\<lparr>pipeline :=
              (pipeline this)\<lparr>calls := calls (pipeline this) @ [Flop, Rotate (Num (dec a))]\<rparr>\<rparr>)
       \<and> rotation (''!'' @ a @ ''.'' @ b) this =
            Returned (this\<lparr>pipeline :=
              (pipeline this)\<lparr>calls := calls (pipeline this) @
                [Flop, Rotate (Num (dec a + dec b / 10 ^ length b))]\<rparr>\<rparr>)"
proof (intro conjI impI)
  have plain: "\<not> starts_with_bang (a @ r)" "strip_bang (a @ r) = a @ r" for r
    using bang_digits [OF assms(1), of r] by simp_all
  show "rotation ''0'' this = Returned this"
    by (simp add: rotation_def validate_rotation_0)
  show "rotation a this =
          Returned (this\<lparr>pipeline :=
            (pipeline this)\<lparr>calls := calls (pipeline this) @ [Rotate (Num (dec a))]\<rparr>\<rparr>)"
    if "a \<noteq> ''0''"
    using validate_rotation_forms(1) [OF assms] that plain [of "[]"] Number_digits [OF assms(1)]
    by (intro rotation_plain) simp_all
  have "a @ ''.'' @ b \<noteq> ''0''"
    using assms by (cases a) (auto simp: digits_def)
  then show "rotation (a @ ''.'' @ b) this =
          Returned (this\<lparr>pipeline :=
            (pipeline this)\<lparr>calls := calls (pipeline this) @
              [Rotate (Num (dec a + dec b / 10 ^ length b))]\<rparr>\<rparr>)"
    using validate_rotation_forms(2) [OF assms] plain [of "''.'' @ b"] Number_frac [OF assms]
    by (intro rotation_plain) simp_all
  show "rotation (''!'' @ a) this =
          Returned (this\<lparr>pipeline :=
            (pipeline this)\<lparr>calls := calls (pipeline this) @ [Flop, Rotate (Num (dec a))]\<rparr>\<rparr>)"
    using validate_rotation_forms(3) [OF assms] Number_digits [OF assms(1)]
    by (intro rotation_mirrored) (simp_all add: starts_with_bang_def strip_bang_def)
  show "rotation (''!'' @ a @ ''.'' @ b) this =
          Returned (this\<lparr>pipeline :=
            (pipeline this)\<lparr>calls := calls (pipeline this) @
              [Flop, Rotate (Num (dec a + dec b / 10 ^ length b))]\<rparr>\<rparr>)"
    using validate_rotation_forms(4) [OF assms] Number_frac [OF assms]
    by (intro rotation_mirrored) (simp_all add: starts_with_bang_def strip_bang_def)
qed

theorem rotation_flip_then_rotate_witness:
  "digits ''90'' \<and> digits ''5'' \<and> ''90'' \<noteq> ''0''
   \<and> rotation ''!90'' (constructor \<lparr>width = Num 200, height = Num 100\<rparr>) =
       Returned \<lparr>dims = \<lparr>width = Num 200, height = Num 100\<rparr>,
                 pipeline = \<lparr>calls = [Flop, Rotate (Num 90)],
                             widthPre = Num (- 1), heightPre = Num (- 1)\<rparr>\<rparr>
   \<and> rotation ''90'' (constructor \<lparr>width = Num 200, height = Num 100\<rparr>) =
       Returned \<lparr>dims = \<lparr>width = Num 200, height = Num 100\<rparr>,
                 pipeline = \<lparr>calls = [Rotate (Num 90)],
                             widthPre = Num (- 1), heightPre = Num (- 1)\<rparr>\<rparr>
   \<and> rotation ''!90.5'' (constructor \<lparr>width = Num 200, height = Num 100\<rparr>) =
       Returned \<lparr>dims = \<lparr>width = Num 200, height = Num 100\<rparr>,
                 pipeline = \<lparr>calls = [Flop, Rotate (Num (181 / 2))],
                             widthPre = Num (- 1), heightPre = Num (- 1)\<rparr>\<rparr>"
proof -
  have d: "digits ''90''" "digits ''5''"
    by code_simp+
  have v: "dec ''90'' = 90" "dec ''5'' = 5"
    by code_simp+
  from rotation_flip_then_rotate [OF d, of "constructor \<lparr>width = Num 200, height = Num 100\<rparr>"]
  show ?thesis
    using d by (simp add: v constructor_def Sharp_new_def)
qed

lemma validate_bang_0: "validate ''rotation'' ''!0'' = Inr True"
  by code_simp

lemma validate_0_0: "validate ''rotation'' ''0.0'' = Inr True"
  by code_simp

lemma Number_0: "Number ''0'' = Num 0"
  by code_simp

lemma Number_0_0: "Number ''0.0'' = Num 0"
  by code_simp

lemma rotation_extends_calls:
  assumes "rotation v this = Returned this'" and "v \<noteq> ''0''"
  shows "calls (pipeline this') \<noteq> calls (pipeline this)"
proof (cases "validate ''rotation'' v")
  case (Inl e)
  with assms show ?thesis by (simp add: rotation_def)
next
  case (Inr ok)
  show ?thesis
  proof (cases "isNaN (Number (strip_bang v))")
    case True
    with Inr assms show ?thesis by (simp add: rotation_def Let_def)
  next
    case False
    with Inr assms have "this' =
        (if starts_with_bang v then this\<lparr>pipeline := emit Flop (pipeline this)\<rparr> else this)
          \<lparr>pipeline := emit (Rotate (Number (strip_bang v)))
             (pipeline (if starts_with_bang v then this\<lparr>pipeline := emit Flop (pipeline this)\<rparr>
                        else this))\<rparr>"
      by (simp add: rotation_def Let_def)
    then show ?thesis by (simp add: emit_def)
  qed
qed

lemma rotation_returns_same: "rotation v this = Returned this \<Longrightarrow> v = ''0''"
  using rotation_extends_calls [of v this this] by blast

text \<open>
  C9. Only the string \<^verbatim>\<open>0\<close> is short-circuited: \<open>rotation\<close> returns with the state as it
  was for this value and for no other. The value \<^verbatim>\<open>!0\<close> emits the flip and then the rotate
  by 0, and the value \<^verbatim>\<open>0.0\<close> emits the rotate by 0.
\<close>

theorem rotation_zero_literal_only:
  "rotation ''!0'' this =
     Returned (this\<lparr>pipeline :=
       (pipeline this)\<lparr>calls := calls (pipeline this) @ [Flop, Rotate (Num 0)]\<rparr>\<rparr>)
   \<and> rotation ''0.0'' this =
     Returned (this\<lparr>pipeline :=
       (pipeline this)\<lparr>calls := calls (pipeline this) @ [Rotate (Num 0)]\<rparr>\<rparr>)
   \<and> (rotation v this = Returned this \<longleftrightarrow> v = ''0'')"
proof (intro conjI)
  show "rotation ''!0'' this =
     Returned (this\<lparr>pipeline :=
       (pipeline this)\<lparr>calls := calls (pipeline this) @ [Flop, Rotate (Num 0)]\<rparr>\<rparr>)"
    by (rule rotation_mirrored)
      (simp_all add: validate_bang_0 starts_with_bang_def strip_bang_def Number_0)
  show "rotation ''0.0'' this =
     Returned (this\<lparr>pipeline :=
       (pipeline this)\<lparr>calls := calls (pipeline this) @ [Rotate (Num 0)]\<rparr>\<rparr>)"
    by (rule rotation_plain)
      (simp_all add: validate_0_0 starts_with_bang_def strip_bang_def Number_0_0)
  show "rotation v this = Returned this \<longleftrightarrow> v = ''0''"
  proof
    assume "rotation v this = Returned this"
    then show "v = ''0''" by (rule rotation_returns_same)
  next
    assume "v = ''0''"
    then show "rotation v this = Returned this"
      by (simp add: rotation_def validate_rotation_0)
  qed
qed

end
